theory Spec2Isabelle
  imports Complex_Main
begin

section \<open>Python values used by app.py\<close>

text \<open>
  A Python \<open>str\<close> is modelled as a \<open>string\<close> whose characters are code points below 256.
  An exception is a value; a call that may raise returns \<open>exn + 'a\<close> with \<open>Inl\<close> for the
  raised exception. A Python \<open>None\<close> result is \<open>None\<close> of an option type.
\<close>

datatype exn = Exception string

type_synonym bytes = "nat list"

text \<open>\<open>str.lower()\<close> on code points below 256: A-Z and the Latin-1 capitals move by 32.\<close>

definition lower_char :: "char \<Rightarrow> char" where
  "lower_char c =
     (let n = (of_char c :: nat) in
      if (65 \<le> n \<and> n \<le> 90) \<or> (192 \<le> n \<and> n \<le> 222 \<and> n \<noteq> 215)
      then char_of (n + 32) else c)"

definition lower :: "string \<Rightarrow> string" where
  "lower s = map lower_char s"

text \<open>\<open>s.endswith(suf)\<close>.\<close>

definition endswith :: "string \<Rightarrow> string \<Rightarrow> bool" where
  "endswith s suf = (length suf \<le> length s \<and> drop (length s - length suf) s = suf)"

text \<open>\<open>str.isspace()\<close> of one code point below 256, and \<open>str.strip()\<close>.\<close>

definition isspace :: "char \<Rightarrow> bool" where
  "isspace c =
     (let n = (of_char c :: nat) in
      (9 \<le> n \<and> n \<le> 13) \<or> (28 \<le> n \<and> n \<le> 32) \<or> n = 133 \<or> n = 160)"

definition strip :: "string \<Rightarrow> string" where
  "strip s = rev (dropWhile isspace (rev (dropWhile isspace s)))"

text \<open>\<open>' '.join(xs)\<close>.\<close>

fun join_space :: "string list \<Rightarrow> string" where
  "join_space [] = []"
| "join_space [x] = x"
| "join_space (x # y # ys) = x @ '' '' @ join_space (y # ys)"

section \<open>Chunking of the script (generate_podcast, lines 311-313)\<close>

definition max_chunk_length :: nat where
  "max_chunk_length = 3000"

text \<open>\<open>range(i, n, max_chunk_length)\<close>: the start offsets of the chunks.\<close>

function chunk_starts :: "nat \<Rightarrow> nat \<Rightarrow> nat list" where
  "chunk_starts i n = (if i < n then i # chunk_starts (i + max_chunk_length) n else [])"
  by pat_completeness auto
termination
  by (relation "measure (\<lambda>(i, n). n - i)") (auto simp: max_chunk_length_def)

declare chunk_starts.simps [simp del]

text \<open>
  \<open>[podcast_script[i:i+max_chunk_length] for i in range(0, len(podcast_script), max_chunk_length)]\<close>;
  the slice \<open>s[i:i+C]\<close> of a sequence is \<open>take C (drop i s)\<close>.
\<close>

definition split_chunks :: "'a list \<Rightarrow> 'a list list" where
  "split_chunks s =
     map (\<lambda>i. take max_chunk_length (drop i s)) (chunk_starts 0 (length s))"

section \<open>The script generator (generate_podcast_script, lines 139-230)\<close>

subsection \<open>The response of the generative model\<close>

text \<open>
  The response is an object whose attributes may be absent: an attribute that
  \<open>hasattr\<close> finds is \<open>Some\<close>, an absent one is \<open>None\<close>. A part carries an optional text,
  a candidate an optional content, a content an optional list of parts.
\<close>

datatype part = Part (part_text: "string option")

datatype content = Content (content_parts: "part list option")

datatype candidate = Candidate (candidate_content: "content option")

record response =
  resp_text :: "string option"
  resp_parts :: "part list option"
  resp_candidates :: "candidate list option"

text \<open>\<open>[part.text for part in parts if hasattr(part, 'text')]\<close>.\<close>

fun part_texts :: "part list \<Rightarrow> string list" where
  "part_texts [] = []"
| "part_texts (p # ps) =
     (case part_text p of None \<Rightarrow> part_texts ps | Some t \<Rightarrow> t # part_texts ps)"

text \<open>
  The loop over \<open>response.candidates\<close> (lines 189-194): the first candidate that has a
  content with parts, of which at least one has a text, decides.
\<close>

fun first_candidate :: "candidate list \<Rightarrow> string option" where
  "first_candidate [] = None"
| "first_candidate (c # cs) =
     (case candidate_content c of
        None \<Rightarrow> first_candidate cs
      | Some ct \<Rightarrow>
          (case content_parts ct of
             None \<Rightarrow> first_candidate cs
           | Some ps \<Rightarrow>
               if part_texts ps \<noteq> [] then Some (join_space (part_texts ps))
               else first_candidate cs))"

text \<open>
  Lines 177-194: the value the attempt returns, or \<open>None\<close> when the attempt falls through
  to the "unexpected response format" branch.
\<close>

definition handle_response :: "response \<Rightarrow> string option" where
  "handle_response r =
     (case resp_text r of
        Some t \<Rightarrow> Some t
      | None \<Rightarrow>
          (case (case resp_parts r of
                   None \<Rightarrow> None
                 | Some ps \<Rightarrow>
                     if part_texts ps \<noteq> [] then Some (join_space (part_texts ps)) else None) of
             Some s \<Rightarrow> Some s
           | None \<Rightarrow>
               (case resp_candidates r of
                  None \<Rightarrow> None
                | Some cs \<Rightarrow> first_candidate cs)))"

subsection \<open>The normalization in the words of the specification\<close>

text \<open>
  The three shapes, each yielding a text or nothing, are tried in a fixed order and the
  first shape that yields a text gives the result. The direct text field yields its
  value whenever the field is there. A list shape yields when at least one of its parts
  has a text, and then concatenates the texts of the parts that have one, in the order
  of the parts, with one space between neighbours. These definitions read the fields
  of the response and use none of the functions of the code above.
\<close>

definition texts_present :: "part list \<Rightarrow> string list" where
  "texts_present ps = [t. Part (Some t) \<leftarrow> ps]"

fun spaced :: "string list \<Rightarrow> string" where
  "spaced [] = []"
| "spaced (t # ts) = t @ concat (map (\<lambda>u. CHR '' '' # u) ts)"

definition joined_parts :: "part list \<Rightarrow> string option" where
  "joined_parts ps =
     (if texts_present ps = [] then None else Some (spaced (texts_present ps)))"

fun first_yield :: "string option list \<Rightarrow> string option" where
  "first_yield [] = None"
| "first_yield (Some t # ys) = Some t"
| "first_yield (None # ys) = first_yield ys"

definition shape_direct :: "response \<Rightarrow> string option" where
  "shape_direct r = resp_text r"

definition shape_parts :: "response \<Rightarrow> string option" where
  "shape_parts r = (case resp_parts r of None \<Rightarrow> None | Some ps \<Rightarrow> joined_parts ps)"

definition shape_candidate :: "candidate \<Rightarrow> string option" where
  "shape_candidate c =
     (case c of
        Candidate (Some (Content (Some ps))) \<Rightarrow> joined_parts ps
      | _ \<Rightarrow> None)"

definition shape_nested :: "response \<Rightarrow> string option" where
  "shape_nested r =
     (case resp_candidates r of
        None \<Rightarrow> None
      | Some cs \<Rightarrow> first_yield (map shape_candidate cs))"

definition normalize_spec :: "response \<Rightarrow> string option" where
  "normalize_spec r = first_yield [shape_direct r, shape_parts r, shape_nested r]"

subsection \<open>The retry loop\<close>

text \<open>What the request handler and the generator do to the outside world, in order.\<close>

datatype event =
    Save_upload string
  | Extract_pdf string
  | Remove_upload string
  | Extract_url string
  | Llm_call nat
  | Sleep nat
  | Write_script string
  | Tts_call nat string
  | Download nat string
  | Write_audio string

text \<open>The durations passed to \<open>time.sleep\<close>, in order.\<close>

fun sleeps :: "event list \<Rightarrow> nat list" where
  "sleeps [] = []"
| "sleeps (Sleep d # es) = d # sleeps es"
| "sleeps (e # es) = sleeps es"

definition max_retries :: nat where
  "max_retries = 3"

definition prompt_header :: string where
  "prompt_header =
     ''You are a professional podcast host. Transform the following research paper '' @
     ''into an engaging, conversational podcast script. The script should be '' @
     ''informative but accessible to a technical audience.\<newline>\<newline>'' @
     ''Structure your response with these sections:\<newline>'' @
     ''1. [Engaging introduction that hooks the listener]\<newline>'' @
     ''2. [Key findings and their significance]\<newline>'' @
     ''3. [Methodology overview - simplified]\<newline>'' @
     ''4. [Results and their implications]\<newline>'' @
     ''5. [Thought-provoking conclusion]\<newline>\<newline>'' @
     ''Make it sound natural and engaging, as if it's being presented by an expert host.\<newline>\<newline>'' @
     ''Here's the research paper content:\<newline>''"

text \<open>Lines 147-159: one prompt string, the paper cut to its first 15000 characters.\<close>

definition prompt_parts :: "string \<Rightarrow> string list" where
  "prompt_parts txt = [prompt_header @ take 15000 txt]"

text \<open>
  The generative model is outside the program: \<open>llm attempt prompt\<close> is what
  \<open>model.generate_content(prompt_parts)\<close> does on the given attempt, raising (\<open>Inl\<close>) or
  returning a response.
\<close>

type_synonym llm = "nat \<Rightarrow> string list \<Rightarrow> exn + response"

text \<open>
  Lines 167-221, \<open>for attempt in range(max_retries)\<close> from \<open>attempt\<close> on. The result is
  the value returned from inside the loop (\<open>Some\<close>), or \<open>None\<close> when the loop ends or
  breaks; with it the last error and the events so far.
\<close>

function retry_loop ::
  "llm \<Rightarrow> string list \<Rightarrow> nat \<Rightarrow> exn option \<Rightarrow> event list \<Rightarrow>
     string option \<times> exn option \<times> event list" where
  "retry_loop llm prompt attempt last_error tr =
     (if attempt < max_retries then
        (case llm attempt prompt of
           Inr response \<Rightarrow>
             (case handle_response response of
                Some s \<Rightarrow> (Some s, last_error, tr @ [Llm_call attempt])
              | None \<Rightarrow>
                  if attempt < max_retries - 1
                  then retry_loop llm prompt (attempt + 1) last_error
                         (tr @ [Llm_call attempt, Sleep (2 ^ attempt)])
                  else retry_loop llm prompt (attempt + 1) last_error
                         (tr @ [Llm_call attempt]))
         | Inl e \<Rightarrow>
             if attempt = max_retries - 1
             then (None, Some e, tr @ [Llm_call attempt])
             else retry_loop llm prompt (attempt + 1) (Some e)
                    (tr @ [Llm_call attempt, Sleep (2 ^ attempt)]))
      else (None, last_error, tr))"
  by pat_completeness auto
termination
  by (relation "measure (\<lambda>(llm, prompt, attempt, last_error, tr). max_retries - attempt)") auto

declare retry_loop.simps [simp del]

text \<open>\<open>try: body except Exception as e: handler(e)\<close>.\<close>

definition try_except :: "exn + 'a \<Rightarrow> (exn \<Rightarrow> exn + 'a) \<Rightarrow> exn + 'a" where
  "try_except body handler = (case body of Inl e \<Rightarrow> handler e | Inr v \<Rightarrow> Inr v)"

text \<open>
  The whole function: the result is \<open>Inr None\<close> for a returned \<open>None\<close>, \<open>Inr (Some s)\<close> for
  a returned script and \<open>Inl e\<close> for an exception that leaves the function.
\<close>

definition generate_podcast_script ::
  "llm \<Rightarrow> string \<Rightarrow> event list \<Rightarrow> (exn + string option) \<times> event list" where
  "generate_podcast_script llm txt tr =
     (if txt = [] \<or> strip txt = [] then (Inr None, tr)
      else
        (case retry_loop llm (prompt_parts txt) 0 None tr of
           (result, last_error, tr') \<Rightarrow>
             (try_except (Inr result) (\<lambda>e. Inr None), tr')))"

text \<open>An attempt fails when the call raises or no shape of the response yields a text.\<close>

definition attempt_fails :: "exn + response \<Rightarrow> bool" where
  "attempt_fails out =
     (case out of Inl e \<Rightarrow> True | Inr r \<Rightarrow> handle_response r = None)"

section \<open>Text extraction (lines 82-137)\<close>

text \<open>
  PyMuPDF is outside the program. A file is modelled by what \<open>fitz.open\<close> finds in it:
  the call raises, or it gives the pages in order, and \<open>page.get_text()\<close> of a page
  raises or gives its text. The file system maps the paths that exist to such files, so
  \<open>os.path.exists(p)\<close> is \<open>fs p \<noteq> None\<close>.
\<close>

type_synonym page = "exn + string"

type_synonym pdf = "exn + page list"

type_synonym files = "string \<rightharpoonup> pdf"

text \<open>Lines 108-110: \<open>text = ""; for page in doc: text += page.get_text()\<close>.\<close>

fun read_pages :: "page list \<Rightarrow> string \<Rightarrow> exn + string" where
  "read_pages [] acc = Inr acc"
| "read_pages (pg # pgs) acc =
     (case pg of Inl e \<Rightarrow> Inl e | Inr t \<Rightarrow> read_pages pgs (acc @ t))"

text \<open>
  Lines 82-114. The check with \<open>magic\<close> (lines 96-104) only prints, whatever it finds
  and whether or not it raises, so it has no part in the result. Every exception ends
  in \<open>return None\<close>.
\<close>

definition extract_text_from_pdf :: "files \<Rightarrow> string \<Rightarrow> string option" where
  "extract_text_from_pdf fs pdf_path =
     (case fs pdf_path of
        None \<Rightarrow> None
      | Some doc \<Rightarrow>
          if \<not> endswith (lower pdf_path) ''.pdf'' then None
          else
            (case doc of
               Inl e \<Rightarrow> None
             | Inr pages \<Rightarrow>
                 (case read_pages pages [] of
                    Inl e \<Rightarrow> None
                  | Inr text \<Rightarrow> Some text)))"

text \<open>\<open>sub in s\<close> for strings.\<close>

fun contains :: "string \<Rightarrow> string \<Rightarrow> bool" where
  "contains [] sub = (sub = [])"
| "contains (c # cs) sub = (take (length sub) (c # cs) = sub \<or> contains cs sub)"

text \<open>
  The answer to \<open>requests.get(url, timeout=10)\<close>: the content type header (\<open>''''\<close> when
  absent), the bytes of the body (\<open>response.content\<close>), and what BeautifulSoup gives for
  the body as HTML once the script and style elements are removed.
\<close>

record web_response =
  web_content_type :: string
  web_content :: bytes
  web_page_text :: "exn + string"

text \<open>
  What \<open>fitz.open\<close> finds in a file that holds the given bytes, \<open>fitz\<close> being PyMuPDF on
  the bytes of a file that is not empty: an empty file is refused with an exception.
\<close>

definition fitz_open :: "(bytes \<Rightarrow> pdf) \<Rightarrow> bytes \<Rightarrow> pdf" where
  "fitz_open fitz data =
     (if data = [] then Inl (Exception ''cannot open empty file'') else fitz data)"

text \<open>
  Lines 125-127 write the body through the buffered writer of the temporary file and
  read the file by its name inside the \<open>with\<close> block, before the writer is flushed or
  closed. A body that fits the buffer is still in the buffer then and the file on disk
  is empty; a larger body is passed to the file at once.
\<close>

definition written_before_flush :: "nat \<Rightarrow> bytes \<Rightarrow> bytes" where
  "written_before_flush buffer_size data =
     (if length data \<le> buffer_size then [] else data)"

section \<open>The request handler (generate_podcast, lines 240-374)\<close>

text \<open>The uploaded file: its name and its content.\<close>

record upload =
  up_filename :: string
  up_body :: pdf

text \<open>
  The request: the part \<open>file\<close> of \<open>request.files\<close> if there is one, \<open>request.is_json\<close>,
  and what \<open>request.get_json()\<close> followed by \<open>data.get('source')\<close> gives: an exception,
  no value, or the source.
\<close>

record request =
  req_file :: "upload option"
  req_is_json :: bool
  req_source :: "exn + string option"

text \<open>The reply of the speech service for one chunk and of the download of its audio.\<close>

datatype tts_response = Tts_none | Tts_result (audio_file: "string option")

record download_response =
  dl_status_code :: nat
  dl_content :: bytes

text \<open>
  Everything outside the program that a request meets: the file system, the web, the
  temporary file name, PyMuPDF on the bytes of a file, the size of the buffer of a
  file writer, the generative model, the module-level speech client (its API key,
  \<open>None\<close> when it could not be constructed), the uuids drawn (by place of use), the time
  stamp, the file operations that raise, the speech service and the audio download (by
  chunk number).
\<close>

record env =
  env_files :: files
  env_http_get :: "string \<Rightarrow> exn + web_response"
  env_tempfile :: "exn + string"
  env_fitz :: "bytes \<Rightarrow> pdf"
  env_buffer_size :: nat
  env_llm :: llm
  env_murf_client :: "string option"
  env_uuid4 :: "nat \<Rightarrow> string"
  env_now :: string
  env_io_error :: "event \<Rightarrow> exn option"
  env_tts :: "nat \<Rightarrow> string \<Rightarrow> exn + tts_response"
  env_download :: "nat \<Rightarrow> string \<Rightarrow> exn + download_response"

text \<open>
  Lines 117-137. The temporary file is named with the suffix \<open>.pdf\<close> and exists once
  created; PyMuPDF reads what has reached the file when line 127 runs. Every exception
  ends in \<open>return None\<close>.
\<close>

definition extract_text_from_url :: "env \<Rightarrow> string \<Rightarrow> string option" where
  "extract_text_from_url env url =
     (case env_http_get env url of
        Inl e \<Rightarrow> None
      | Inr response \<Rightarrow>
          if contains (web_content_type response) ''application/pdf'' then
            (case env_tempfile env of
               Inl e \<Rightarrow> None
             | Inr stem \<Rightarrow>
                 extract_text_from_pdf
                   ((env_files env)
                      (stem @ ''.pdf'' \<mapsto>
                         fitz_open (env_fitz env)
                           (written_before_flush (env_buffer_size env)
                              (web_content response))))
                   (stem @ ''.pdf''))
          else
            (case web_page_text response of
               Inl e \<Rightarrow> None
             | Inr t \<Rightarrow> Some t))"

subsection \<open>Responses\<close>

datatype json = JString string | JNull

record http_response =
  http_status :: nat
  http_body :: "(string \<times> json) list"

text \<open>\<open>jsonify({'error': msg}), code\<close>.\<close>

definition error_response :: "nat \<Rightarrow> string \<Rightarrow> http_response" where
  "error_response code msg = \<lparr>http_status = code, http_body = [(''error'', JString msg)]\<rparr>"

definition json_of_url :: "string option \<Rightarrow> json" where
  "json_of_url u = (case u of None \<Rightarrow> JNull | Some s \<Rightarrow> JString s)"

text \<open>Lines 364-368: the reply without a warning, with the current \<open>audio_url\<close>.\<close>

definition success_response :: "string \<Rightarrow> string option \<Rightarrow> http_response" where
  "success_response script audio_url =
     \<lparr>http_status = 200,
      http_body = [(''status'', JString ''success''), (''script'', JString script),
                   (''audio_url'', json_of_url audio_url)]\<rparr>"

text \<open>Lines 297-302 and 344-349: the reply with \<open>audio_url\<close> null and a warning.\<close>

definition warning_response :: "string \<Rightarrow> string \<Rightarrow> http_response" where
  "warning_response script warning =
     \<lparr>http_status = 200,
      http_body = [(''status'', JString ''success''), (''script'', JString script),
                   (''audio_url'', JNull), (''warning'', JString warning)]\<rparr>"

text \<open>The value of a field of the JSON reply, \<open>None\<close> when the field is absent.\<close>

definition field :: "http_response \<Rightarrow> string \<Rightarrow> json option" where
  "field r k = map_of (http_body r) k"

subsection \<open>Receiving the source (lines 244-275)\<close>

text \<open>
  A step of the handler raises, returns a reply at once, or goes on with a value.
\<close>

datatype 'a flow = Raise exn | Return http_response | Next 'a

definition upload_folder :: string where
  "upload_folder = ''uploads''"

definition audio_folder :: string where
  "audio_folder = ''static/audio''"

definition path_join :: "string \<Rightarrow> string \<Rightarrow> string" where
  "path_join dir name = dir @ ''/'' @ name"

text \<open>
  An uploaded file object is true exactly when its file name is not empty, so
  \<open>file and ...\<close> on line 252 only tests the extension once line 249 is passed.
\<close>

definition receive_source :: "env \<Rightarrow> request \<Rightarrow> string option flow \<times> event list" where
  "receive_source env req =
     (case req_file req of
        Some file \<Rightarrow>
          if up_filename file = [] then (Return (error_response 400 ''No selected file''), [])
          else if endswith (lower (up_filename file)) ''.pdf'' then
            (let filepath = path_join upload_folder (env_uuid4 env 0 @ ''.pdf'') in
             case env_io_error env (Save_upload filepath) of
               Some e \<Rightarrow> (Raise e, [Save_upload filepath])
             | None \<Rightarrow>
                 (let paper_text =
                        extract_text_from_pdf ((env_files env)(filepath \<mapsto> up_body file))
                          filepath
                  in case env_io_error env (Remove_upload filepath) of
                       Some e \<Rightarrow>
                         (Raise e,
                          [Save_upload filepath, Extract_pdf filepath, Remove_upload filepath])
                     | None \<Rightarrow>
                         (Next paper_text,
                          [Save_upload filepath, Extract_pdf filepath, Remove_upload filepath])))
          else (Return (error_response 400 ''Invalid file type. Please upload a PDF.''), [])
      | None \<Rightarrow>
          if req_is_json req then
            (case req_source req of
               Inl e \<Rightarrow> (Raise e, [])
             | Inr None \<Rightarrow> (Return (error_response 400 ''No URL provided''), [])
             | Inr (Some url) \<Rightarrow>
                 if url = [] then (Return (error_response 400 ''No URL provided''), [])
                 else (Next (extract_text_from_url env url), [Extract_url url]))
          else (Next None, []))"

subsection \<open>Speech synthesis (lines 304-368)\<close>

text \<open>
  Line 331, \<open>response and hasattr(response, 'audio_file') and response.audio_file\<close>: the
  URL of the audio when the condition holds.
\<close>

definition usable_audio_file :: "tts_response \<Rightarrow> string option" where
  "usable_audio_file response =
     (case response of
        Tts_none \<Rightarrow> None
      | Tts_result None \<Rightarrow> None
      | Tts_result (Some u) \<Rightarrow> if u = [] then None else Some u)"

text \<open>
  Lines 318-341, \<open>for i, chunk in enumerate(chunks)\<close> from chunk \<open>i\<close> on, with the
  variables \<open>all_audio_data\<close> and \<open>audio_url\<close>. The first component is the exception
  that ends the loop, if one is raised.
\<close>

fun tts_loop ::
  "env \<Rightarrow> nat \<Rightarrow> string list \<Rightarrow> bytes \<Rightarrow> string option \<Rightarrow> event list \<Rightarrow>
     exn option \<times> bytes \<times> string option \<times> event list" where
  "tts_loop env i [] all_audio_data audio_url tr = (None, all_audio_data, audio_url, tr)"
| "tts_loop env i (chunk # rest) all_audio_data audio_url tr =
     (case env_tts env i chunk of
        Inl e \<Rightarrow> (Some e, all_audio_data, audio_url, tr @ [Tts_call i chunk])
      | Inr response \<Rightarrow>
          (case usable_audio_file response of
             Some url \<Rightarrow>
               (case env_download env i url of
                  Inl e \<Rightarrow>
                    (Some e, all_audio_data, Some url,
                     tr @ [Tts_call i chunk, Download i url])
                | Inr audio_response \<Rightarrow>
                    if dl_status_code audio_response = 200
                    then tts_loop env (Suc i) rest
                           (all_audio_data @ dl_content audio_response) (Some url)
                           (tr @ [Tts_call i chunk, Download i url])
                    else tts_loop env (Suc i) rest all_audio_data (Some url)
                           (tr @ [Tts_call i chunk, Download i url]))
           | None \<Rightarrow>
               tts_loop env (Suc i) rest all_audio_data audio_url
                 (tr @ [Tts_call i chunk])))"

text \<open>
  Lines 304-368. An exception in the loop or in writing the audio file is caught on
  line 358 and the handler goes on to the reply of lines 364-368.
\<close>

definition speech_stage ::
  "env \<Rightarrow> string \<Rightarrow> event list \<Rightarrow> http_response \<times> event list" where
  "speech_stage env podcast_script tr =
     (let audio_filename = ''podcast_'' @ env_now env @ ''.mp3'';
          audio_path = path_join audio_folder audio_filename
      in case tts_loop env 0 (split_chunks podcast_script) [] None tr of
           (Some e, all_audio_data, audio_url, tr1) \<Rightarrow>
             (success_response podcast_script audio_url, tr1)
         | (None, all_audio_data, audio_url, tr1) \<Rightarrow>
             if all_audio_data = [] then
               (warning_response podcast_script
                  (''Failed to generate audio. The text might be too long or contain '' @
                   ''unsupported characters.''), tr1)
             else
               (case env_io_error env (Write_audio audio_path) of
                  Some e \<Rightarrow>
                    (success_response podcast_script audio_url,
                     tr1 @ [Write_audio audio_path])
                | None \<Rightarrow>
                    (success_response podcast_script
                       (Some (''/static/audio/'' @ audio_filename)),
                     tr1 @ [Write_audio audio_path])))"

subsection \<open>The handler\<close>

text \<open>Lines 277-302: from the extracted text to the start of speech synthesis.\<close>

definition script_stage ::
  "env \<Rightarrow> string option \<Rightarrow> event list \<Rightarrow> (exn + http_response) \<times> event list" where
  "script_stage env paper_text tr =
     (case paper_text of
        None \<Rightarrow> (Inr (error_response 400 ''Could not extract text from the source.''), tr)
      | Some t \<Rightarrow>
          if t = [] then
            (Inr (error_response 400 ''Could not extract text from the source.''), tr)
          else
            (case generate_podcast_script (env_llm env) t tr of
               (Inl e, tr1) \<Rightarrow> (Inl e, tr1)
             | (Inr None, tr1) \<Rightarrow>
                 (Inr (error_response 500 ''Failed to generate podcast script''), tr1)
             | (Inr (Some podcast_script), tr1) \<Rightarrow>
                 if podcast_script = [] then
                   (Inr (error_response 500 ''Failed to generate podcast script''), tr1)
                 else
                   (let script_path = path_join upload_folder (env_uuid4 env 1 @ ''.txt'')
                    in case env_io_error env (Write_script script_path) of
                         Some e \<Rightarrow> (Inl e, tr1 @ [Write_script script_path])
                       | None \<Rightarrow>
                           (case env_murf_client env of
                              None \<Rightarrow>
                                (Inr (warning_response podcast_script
                                        ''Text-to-speech service not available''),
                                 tr1 @ [Write_script script_path])
                            | Some api_key \<Rightarrow>
                                (case speech_stage env podcast_script
                                        (tr1 @ [Write_script script_path]) of
                                   (r, tr2) \<Rightarrow> (Inr r, tr2))))))"

text \<open>The body of the outer \<open>try\<close>.\<close>

definition generate_podcast_body ::
  "env \<Rightarrow> request \<Rightarrow> (exn + http_response) \<times> event list" where
  "generate_podcast_body env req =
     (case receive_source env req of
        (Raise e, tr) \<Rightarrow> (Inl e, tr)
      | (Return r, tr) \<Rightarrow> (Inr r, tr)
      | (Next paper_text, tr) \<Rightarrow> script_stage env paper_text tr)"

text \<open>Lines 243-374: any exception becomes the generic reply with status 500.\<close>

definition generate_podcast :: "env \<Rightarrow> request \<Rightarrow> http_response \<times> event list" where
  "generate_podcast env req =
     (case generate_podcast_body env req of
        (Inl e, tr) \<Rightarrow> (error_response 500 ''An internal server error occurred.'', tr)
      | (Inr r, tr) \<Rightarrow> (r, tr))"

subsection \<open>A sample environment and sample requests\<close>

definition sample_response :: response where
  "sample_response =
     \<lparr>resp_text = Some ''Welcome to the show.'', resp_parts = None, resp_candidates = None\<rparr>"

definition sample_env :: env where
  "sample_env =
     \<lparr>env_files = [''notes.txt'' \<mapsto> Inr [Inr ''plain notes''],
                   ''paper.PDF'' \<mapsto> Inr [Inr ''Hello World '', Inr ''research findings''],
                   ''broken.pdf'' \<mapsto> Inl (Exception ''cannot open'')],
      env_http_get = (\<lambda>url.
         if url = ''http://example.org/blank''
         then Inr \<lparr>web_content_type = ''text/html'', web_content = [60, 112, 62],
                   web_page_text = Inr ''  \<newline> ''\<rparr>
         else Inr \<lparr>web_content_type = ''text/html'', web_content = [60, 112, 62],
                   web_page_text = Inr ''A paper.''\<rparr>),
      env_tempfile = Inr ''/tmp/tmpab12'',
      env_fitz = (\<lambda>data. Inl (Exception ''no PDF document'')),
      env_buffer_size = 8192,
      env_llm = (\<lambda>attempt prompt. Inr sample_response),
      env_murf_client = Some ''key'',
      env_uuid4 = (\<lambda>n. if n = 0 then ''1b4e28ba'' else ''9f2c41d0''),
      env_now = ''20240101_120000'',
      env_io_error = (\<lambda>ev. None),
      env_tts = (\<lambda>i chunk. Inl (Exception ''speech service unreachable'')),
      env_download = (\<lambda>i url. Inl (Exception ''connection reset''))\<rparr>"

definition url_request :: "string \<Rightarrow> request" where
  "url_request url = \<lparr>req_file = None, req_is_json = True, req_source = Inr (Some url)\<rparr>"

definition upload_request :: "string \<Rightarrow> request" where
  "upload_request name =
     \<lparr>req_file = Some \<lparr>up_filename = name, up_body = Inr [Inr ''Some text'']\<rparr>,
      req_is_json = False, req_source = Inl (Exception ''not json'')\<rparr>"

section \<open>Chunking: proofs\<close>

lemma max_chunk_length_pos: "0 < max_chunk_length"
  by (simp add: max_chunk_length_def)

text \<open>The chunks of the rest of the script from offset \<open>i\<close> on.\<close>

lemma concat_chunks_from:
  "concat (map (\<lambda>j. take max_chunk_length (drop j s)) (chunk_starts i (length s))) = drop i s"
proof (induction i "length s" arbitrary: s rule: chunk_starts.induct)
  case (1 i)
  show ?case
  proof (cases "i < length s")
    case True
    have "take max_chunk_length (drop i s) @ drop (i + max_chunk_length) s = drop i s"
      by (metis add.commute append_take_drop_id drop_drop)
    with True 1 show ?thesis
      by (subst chunk_starts.simps) simp
  next
    case False
    then show ?thesis
      by (subst chunk_starts.simps) simp
  qed
qed

lemma length_chunk_starts:
  "length (chunk_starts i n) = (n - i + max_chunk_length - 1) div max_chunk_length"
proof (induction i n rule: chunk_starts.induct)
  case (1 i n)
  let ?C = max_chunk_length
  show ?case
  proof (cases "i < n")
    case True
    have unfold: "chunk_starts i n = i # chunk_starts (i + ?C) n"
      using True by (subst chunk_starts.simps) simp
    have ih: "length (chunk_starts (i + ?C) n) = (n - (i + ?C) + ?C - 1) div ?C"
      using 1 True by simp
    have rest: "(n - (i + ?C) + ?C - 1) div ?C = (n - i - 1) div ?C"
    proof (cases "i + ?C \<le> n")
      case True
      then have "n - (i + ?C) + ?C - 1 = n - i - 1" by simp
      then show ?thesis by simp
    next
      case False
      then have a: "n - (i + ?C) + ?C - 1 = ?C - 1" by simp
      have b: "(?C - 1) div ?C = 0"
        using max_chunk_length_pos by simp
      have c: "(n - i - 1) div ?C = 0"
        using False True by simp
      show ?thesis by (simp only: a b c)
    qed
    have "n - i + ?C - 1 = (n - i - 1) + ?C"
      using True by simp
    then have "(n - i + ?C - 1) div ?C = (n - i - 1) div ?C + 1"
      using max_chunk_length_pos by (simp only: div_add_self2)
    with unfold ih rest show ?thesis by simp
  next
    case False
    then have e: "chunk_starts i n = []"
      by (subst chunk_starts.simps) simp
    from False have "n - i + ?C - 1 = ?C - 1" by simp
    then have "(n - i + ?C - 1) div ?C = 0"
      using max_chunk_length_pos by simp
    with e show ?thesis by simp
  qed
qed

lemma nth_chunk_starts:
  "k < length (chunk_starts i n) \<Longrightarrow> chunk_starts i n ! k = i + k * max_chunk_length"
proof (induction i n arbitrary: k rule: chunk_starts.induct)
  case (1 i n)
  from "1.prems" have lt: "i < n"
    by (subst (asm) chunk_starts.simps) (simp split: if_splits)
  then have unfold: "chunk_starts i n = i # chunk_starts (i + max_chunk_length) n"
    by (subst chunk_starts.simps) simp
  show ?case
  proof (cases k)
    case 0
    then show ?thesis by (simp add: unfold)
  next
    case (Suc k')
    with "1.prems" unfold have "k' < length (chunk_starts (i + max_chunk_length) n)"
      by simp
    with 1 lt have "chunk_starts (i + max_chunk_length) n ! k' =
        i + max_chunk_length + k' * max_chunk_length"
      by simp
    with Suc show ?thesis by (simp add: unfold)
  qed
qed

lemma chunk_starts_below:
  "x \<in> set (chunk_starts i n) \<Longrightarrow> x < n"
proof (induction i n rule: chunk_starts.induct)
  case (1 i n)
  from "1.prems" have lt: "i < n"
    by (subst (asm) chunk_starts.simps) (simp split: if_splits)
  from "1.prems" lt have "x = i \<or> x \<in> set (chunk_starts (i + max_chunk_length) n)"
    by (subst (asm) chunk_starts.simps) simp
  with 1 lt show ?case by auto
qed

lemma ceiling_div_nat:
  assumes "0 < c"
  shows "nat \<lceil>real n / real c\<rceil> = (n + c - 1) div c"
proof -
  let ?q = "(n + c - 1) div c"
  have up: "n \<le> ?q * c"
  proof -
    have "n + c - 1 < (?q + 1) * c"
      using assms by (metis Suc_eq_plus1 dividend_less_div_times mult.commute add.commute
          mult_Suc_right)
    then show ?thesis using assms by simp
  qed
  have low: "?q * c < n + c"
  proof -
    have "?q * c \<le> n + c - 1" by simp
    then show ?thesis using assms by linarith
  qed
  have "\<lceil>real n / real c\<rceil> = int ?q"
  proof (rule ceiling_unique)
    have "real (?q * c) < real (n + c)" using low by (simp only: of_nat_less_iff)
    then have "real ?q * real c - real c < real n" by simp
    then have "(real ?q - 1) * real c < real n" by (simp add: algebra_simps)
    then show "of_int (int ?q) - 1 < real n / real c"
      using assms by (simp add: pos_less_divide_eq)
  next
    have "real n \<le> real (?q * c)" using up by (simp only: of_nat_le_iff)
    then show "real n / real c \<le> of_int (int ?q)"
      using assms by (simp add: pos_divide_le_eq)
  qed
  then show ?thesis by simp
qed

text \<open>
  C1. For every script \<open>s\<close> of length \<open>L\<close> and the chunk size \<open>C = 3000\<close>, the chunking
  produces exactly \<open>ceil(L/C)\<close> chunks, every chunk but the last has length exactly \<open>C\<close>,
  the last chunk has a length in \<open>(0, C]\<close>, and the chunks concatenated in order are \<open>s\<close>.
\<close>

theorem split_chunks_correct:
  "max_chunk_length = 3000 \<and>
   length (split_chunks s) = nat \<lceil>real (length s) / real max_chunk_length\<rceil> \<and>
   (\<forall>k. Suc k < length (split_chunks s) \<longrightarrow>
        length (split_chunks s ! k) = max_chunk_length) \<and>
   (split_chunks s \<noteq> [] \<longrightarrow>
        0 < length (last (split_chunks s)) \<and>
        length (last (split_chunks s)) \<le> max_chunk_length) \<and>
   concat (split_chunks s) = s"
proof -
  let ?C = max_chunk_length
  let ?st = "chunk_starts 0 (length s)"
  have len: "length (split_chunks s) = (length s + ?C - 1) div ?C"
    by (simp add: split_chunks_def length_chunk_starts)
  have count: "length (split_chunks s) = nat \<lceil>real (length s) / real ?C\<rceil>"
    using len ceiling_div_nat [OF max_chunk_length_pos] by simp
  have full: "length (split_chunks s ! k) = ?C" if k: "Suc k < length (split_chunks s)" for k
  proof -
    have k1: "k < length ?st" and k2: "Suc k < length ?st"
      using k by (simp_all add: split_chunks_def)
    have "?st ! Suc k = Suc k * ?C"
      using nth_chunk_starts [OF k2] by simp
    moreover have "?st ! Suc k < length s"
      using chunk_starts_below nth_mem [OF k2] by blast
    ultimately have "k * ?C + ?C < length s" by simp
    moreover have "split_chunks s ! k = take ?C (drop (k * ?C) s)"
      using k1 nth_chunk_starts [OF k1] by (simp add: split_chunks_def)
    ultimately show ?thesis by simp
  qed
  have lastc: "0 < length (last (split_chunks s)) \<and> length (last (split_chunks s)) \<le> ?C"
    if ne: "split_chunks s \<noteq> []"
  proof -
    from ne have ne': "?st \<noteq> []" by (simp add: split_chunks_def)
    then have "last ?st \<in> set ?st" by simp
    then have "last ?st < length s" using chunk_starts_below by blast
    moreover have "last (split_chunks s) = take ?C (drop (last ?st) s)"
      using ne' by (simp add: split_chunks_def last_map)
    ultimately show ?thesis using max_chunk_length_pos by simp
  qed
  have cat: "concat (split_chunks s) = s"
    using concat_chunks_from [of s 0] by (simp add: split_chunks_def)
  have size: "max_chunk_length = 3000"
    by (simp add: max_chunk_length_def)
  from size count full lastc cat show ?thesis
    by blast
qed

theorem split_chunks_correct_witness:
  "length (split_chunks (replicate 3001 CHR ''a'')) = 2 \<and>
   length (split_chunks (replicate 3001 CHR ''a'') ! 0) = 3000 \<and>
   0 < length (last (split_chunks (replicate 3001 CHR ''a''))) \<and>
   length (last (split_chunks (replicate 3001 CHR ''a''))) \<le> 3000 \<and>
   concat (split_chunks (replicate 3001 CHR ''a'')) = replicate 3001 CHR ''a''"
proof -
  let ?w = "replicate 3001 CHR ''a''"
  note t = split_chunks_correct [of ?w]
  have c: "max_chunk_length = 3000" using t by blast
  have "length (split_chunks ?w) = nat \<lceil>real (length ?w) / real max_chunk_length\<rceil>"
    using t by blast
  then have n: "length (split_chunks ?w) = 2"
    by (simp add: c)
  then have ne: "split_chunks ?w \<noteq> []" by auto
  have "Suc 0 < length (split_chunks ?w)" using n by simp
  then have "length (split_chunks ?w ! 0) = max_chunk_length" using t by blast
  with n ne c t show ?thesis by simp
qed

section \<open>The script generator: proofs\<close>

lemma join_space_spaced: "join_space ts = spaced ts"
  by (induction ts rule: join_space.induct) simp_all

lemma first_yield_single [simp]: "first_yield [x] = x"
  by (cases x) simp_all

lemma part_texts_present: "part_texts ps = texts_present ps"
proof (induction ps)
  case Nil
  show ?case by (simp add: texts_present_def)
next
  case (Cons p ps)
  obtain o' where p: "p = Part o'" by (cases p)
  from Cons show ?case
    by (cases o') (simp_all add: p texts_present_def)
qed

lemma first_candidate_yield: "first_candidate cs = first_yield (map shape_candidate cs)"
proof (induction cs)
  case Nil
  show ?case by simp
next
  case (Cons c cs)
  show ?case
  proof (cases c)
    case (Candidate co)
    show ?thesis
    proof (cases co)
      case None
      with Candidate Cons show ?thesis by (simp add: shape_candidate_def)
    next
      case (Some ct)
      obtain po where ct: "ct = Content po" by (cases ct)
      show ?thesis
      proof (cases po)
        case None
        with Candidate Some ct Cons show ?thesis by (simp add: shape_candidate_def)
      next
        case (Some ps)
        with Candidate \<open>co = Some ct\<close> ct Cons show ?thesis
          by (simp add: shape_candidate_def joined_parts_def join_space_spaced
              part_texts_present)
      qed
    qed
  qed
qed

text \<open>
  C6. For every response of the generative model the normalization checks the shapes
  in the fixed order direct text field, list of parts, nested candidate/content/parts,
  returns the result of the first shape that yields a text (the direct text field
  yields whenever it is there, a list shape when one of its parts has a text), and for
  the list shapes concatenates the texts of the parts that have one, in order, joined
  by single spaces.
\<close>

theorem handle_response_normalize: "handle_response r = normalize_spec r"
proof (cases "resp_text r")
  case (Some t)
  then show ?thesis
    by (simp add: handle_response_def normalize_spec_def shape_direct_def)
next
  case None
  note no_text = None
  have nested: "(case resp_candidates r of None \<Rightarrow> None | Some cs \<Rightarrow> first_candidate cs) =
      shape_nested r"
    by (simp add: shape_nested_def first_candidate_yield split: option.splits)
  show ?thesis
  proof (cases "resp_parts r")
    case None
    with no_text nested show ?thesis
      by (simp add: handle_response_def normalize_spec_def shape_direct_def shape_parts_def)
  next
    case (Some ps)
    show ?thesis
    proof (cases "texts_present ps = []")
      case True
      with no_text Some nested show ?thesis
        by (simp add: handle_response_def normalize_spec_def shape_direct_def shape_parts_def
            joined_parts_def part_texts_present)
    next
      case False
      with no_text Some show ?thesis
        by (simp add: handle_response_def normalize_spec_def shape_direct_def shape_parts_def
            joined_parts_def join_space_spaced part_texts_present)
    qed
  qed
qed

text \<open>
  The normalization on four responses: a direct text wins over parts; parts without a
  text are left out and the others joined by single spaces in order; with no direct
  text and no part text the first candidate whose content has a part with a text
  decides; a response of no recognized shape yields nothing.
\<close>

theorem handle_response_normalize_witness:
  "handle_response
     \<lparr>resp_text = Some ''Direct'', resp_parts = Some [Part (Some ''from parts'')],
      resp_candidates = None\<rparr> = Some ''Direct'' \<and>
   handle_response
     \<lparr>resp_text = None,
      resp_parts = Some [Part (Some ''Hello''), Part None, Part (Some ''big''),
                         Part (Some ''world'')],
      resp_candidates = Some [Candidate (Some (Content (Some [Part (Some ''other'')])))]\<rparr> =
     Some ''Hello big world'' \<and>
   handle_response
     \<lparr>resp_text = None, resp_parts = Some [Part None],
      resp_candidates =
        Some [Candidate None, Candidate (Some (Content None)),
              Candidate (Some (Content (Some [Part None]))),
              Candidate (Some (Content (Some [Part (Some ''a''), Part (Some ''b'')]))),
              Candidate (Some (Content (Some [Part (Some ''c'')])))]\<rparr> = Some ''a b'' \<and>
   handle_response \<lparr>resp_text = None, resp_parts = None, resp_candidates = None\<rparr> = None"
  by (simp add: handle_response_normalize normalize_spec_def shape_direct_def shape_parts_def
      shape_nested_def shape_candidate_def joined_parts_def texts_present_def)

subsection \<open>One attempt of the retry loop\<close>

lemma sleeps_append: "sleeps (xs @ ys) = sleeps xs @ sleeps ys"
  by (induction xs rule: sleeps.induct) simp_all

lemma retry_loop_end:
  "max_retries \<le> attempt \<Longrightarrow> retry_loop llm prompt attempt last_error tr = (None, last_error, tr)"
  by (subst retry_loop.simps) simp

lemma retry_loop_success:
  assumes "attempt < max_retries" and "llm attempt prompt = Inr r"
    and "handle_response r = Some s"
  shows "retry_loop llm prompt attempt last_error tr =
           (Some s, last_error, tr @ [Llm_call attempt])"
  using assms by (subst retry_loop.simps) simp

lemma retry_loop_fail_retry:
  assumes "attempt < max_retries - 1" and "attempt_fails (llm attempt prompt)"
  shows "\<exists>err. retry_loop llm prompt attempt last_error tr =
           retry_loop llm prompt (Suc attempt) err
             (tr @ [Llm_call attempt, Sleep (2 ^ attempt)])"
proof (cases "llm attempt prompt")
  case (Inl e)
  with assms(1) show ?thesis
    by (subst retry_loop.simps) auto
next
  case (Inr r)
  with assms have "handle_response r = None"
    by (simp add: attempt_fails_def)
  with Inr assms(1) show ?thesis
    by (subst retry_loop.simps) auto
qed

lemma retry_loop_fail_last:
  assumes "attempt = max_retries - 1" and "attempt_fails (llm attempt prompt)"
  shows "\<exists>err. retry_loop llm prompt attempt last_error tr =
           (None, err, tr @ [Llm_call attempt])"
proof (cases "llm attempt prompt")
  case (Inl e)
  with assms(1) show ?thesis
    by (subst retry_loop.simps) (simp add: max_retries_def)
next
  case (Inr r)
  with assms have none: "handle_response r = None"
    by (simp add: attempt_fails_def)
  have "retry_loop llm prompt (attempt + 1) last_error (tr @ [Llm_call attempt]) =
          (None, last_error, tr @ [Llm_call attempt])"
    using assms(1) by (intro retry_loop_end) (simp add: max_retries_def)
  with Inr none assms(1) show ?thesis
    by (subst retry_loop.simps) (simp add: max_retries_def)
qed

lemma retry_loop_two_failures:
  assumes "attempt_fails (llm 0 prompt)" and "attempt_fails (llm 1 prompt)"
  shows "\<exists>err. retry_loop llm prompt 0 None tr =
           retry_loop llm prompt 2 err (tr @ [Llm_call 0, Sleep 1, Llm_call 1, Sleep 2])"
proof -
  obtain e1 where s1: "retry_loop llm prompt 0 None tr =
      retry_loop llm prompt (Suc 0) e1 (tr @ [Llm_call 0, Sleep (2 ^ 0)])"
    using retry_loop_fail_retry [of 0 llm prompt None tr] assms(1)
    by (auto simp: max_retries_def)
  obtain e2 where s2: "retry_loop llm prompt (Suc 0) e1 (tr @ [Llm_call 0, Sleep (2 ^ 0)]) =
      retry_loop llm prompt (Suc (Suc 0)) e2
        ((tr @ [Llm_call 0, Sleep (2 ^ 0)]) @ [Llm_call (Suc 0), Sleep (2 ^ Suc 0)])"
    using retry_loop_fail_retry [of "Suc 0" llm prompt e1 "tr @ [Llm_call 0, Sleep (2 ^ 0)]"]
      assms(2)
    by (auto simp: max_retries_def)
  from s1 s2 have "retry_loop llm prompt 0 None tr =
      retry_loop llm prompt 2 e2 (tr @ [Llm_call 0, Sleep 1, Llm_call 1, Sleep 2])"
    by (simp add: numeral_2_eq_2)
  then show ?thesis ..
qed

lemma strip_paper: "strip ''paper'' = ''paper''"
  by (simp add: strip_def isspace_def)

lemma strip_nonempty: "strip txt \<noteq> [] \<Longrightarrow> txt \<noteq> []"
  by (auto simp: strip_def)

text \<open>
  C2. For every execution of the script generator in which the call of the generative
  model fails (no shape of the response yields a text, or the call raises) on the first
  two attempts and succeeds on the third, the generator returns the result of the third
  attempt, and it sleeps exactly 1 second and then 2 seconds between the attempts.
\<close>

theorem generate_third_attempt:
  assumes "strip txt \<noteq> []"
    and "attempt_fails (llm 0 (prompt_parts txt))"
    and "attempt_fails (llm 1 (prompt_parts txt))"
    and "llm 2 (prompt_parts txt) = Inr r"
    and "handle_response r = Some s"
  shows "generate_podcast_script llm txt tr =
           (Inr (Some s), tr @ [Llm_call 0, Sleep 1, Llm_call 1, Sleep 2, Llm_call 2]) \<and>
         sleeps (snd (generate_podcast_script llm txt [])) = [1, 2]"
proof -
  let ?p = "prompt_parts txt"
  have run: "\<exists>err. retry_loop llm ?p 0 None t =
      (Some s, err, t @ [Llm_call 0, Sleep 1, Llm_call 1, Sleep 2, Llm_call 2])" for t
  proof -
    obtain e2 where s12: "retry_loop llm ?p 0 None t =
        retry_loop llm ?p 2 e2 (t @ [Llm_call 0, Sleep 1, Llm_call 1, Sleep 2])"
      using retry_loop_two_failures [of llm ?p t] assms(2,3) by blast
    have s3: "retry_loop llm ?p 2 e2 (t @ [Llm_call 0, Sleep 1, Llm_call 1, Sleep 2]) =
        (Some s, e2, (t @ [Llm_call 0, Sleep 1, Llm_call 1, Sleep 2]) @ [Llm_call 2])"
      using assms(4,5) by (intro retry_loop_success) (simp_all add: max_retries_def)
    from s12 s3 show ?thesis by simp
  qed
  have gen: "generate_podcast_script llm txt t =
      (Inr (Some s), t @ [Llm_call 0, Sleep 1, Llm_call 1, Sleep 2, Llm_call 2])" for t
  proof -
    obtain err where "retry_loop llm ?p 0 None t =
        (Some s, err, t @ [Llm_call 0, Sleep 1, Llm_call 1, Sleep 2, Llm_call 2])"
      using run by blast
    then show ?thesis
      using assms(1) strip_nonempty [OF assms(1)]
      by (simp add: generate_podcast_script_def try_except_def)
  qed
  show ?thesis
    by (simp add: gen)
qed

theorem generate_third_attempt_witness:
  "generate_podcast_script
     (\<lambda>a p. if a = 0 then Inl (Exception ''timeout'')
             else if a = 1 then Inr \<lparr>resp_text = None, resp_parts = Some [Part None],
                                     resp_candidates = Some []\<rparr>
             else Inr \<lparr>resp_text = None, resp_parts = Some [Part (Some ''Hello''), Part None,
                                     Part (Some ''world'')], resp_candidates = None\<rparr>)
     ''paper'' [] =
   (Inr (Some ''Hello world''), [Llm_call 0, Sleep 1, Llm_call 1, Sleep 2, Llm_call 2])"
proof -
  let ?r = "\<lparr>resp_text = None, resp_parts = Some [Part (Some ''Hello''), Part None,
                                     Part (Some ''world'')], resp_candidates = None\<rparr>"
  let ?llm = "\<lambda>(a::nat) (p::string list). if a = 0 then Inl (Exception ''timeout'')
             else if a = 1 then Inr \<lparr>resp_text = None, resp_parts = Some [Part None],
                                     resp_candidates = Some []\<rparr>
             else Inr ?r"
  have "generate_podcast_script ?llm ''paper'' [] =
           (Inr (Some ''Hello world''), [] @ [Llm_call 0, Sleep 1, Llm_call 1, Sleep 2, Llm_call 2]) \<and>
         sleeps (snd (generate_podcast_script ?llm ''paper'' [])) = [1, 2]"
    by (rule generate_third_attempt [where r = ?r])
      (simp_all add: strip_paper attempt_fails_def handle_response_def)
  then show ?thesis by simp
qed

text \<open>
  C7. For every input text, if every attempt of the script generator fails (the call
  raises or its response matches none of the recognized shapes), the generator returns
  \<open>None\<close> and no exception leaves it.
\<close>

theorem generate_all_fail:
  assumes "\<forall>a<max_retries. attempt_fails (llm a (prompt_parts txt))"
  shows "fst (generate_podcast_script llm txt tr) = Inr None"
proof (cases "txt = [] \<or> strip txt = []")
  case True
  then show ?thesis by (simp add: generate_podcast_script_def)
next
  case False
  let ?p = "prompt_parts txt"
  have f0: "attempt_fails (llm 0 ?p)" and f1: "attempt_fails (llm 1 ?p)"
    and f2: "attempt_fails (llm 2 ?p)"
    using assms by (simp_all add: max_retries_def)
  obtain e2 where s12: "retry_loop llm ?p 0 None tr =
      retry_loop llm ?p 2 e2 (tr @ [Llm_call 0, Sleep 1, Llm_call 1, Sleep 2])"
    using retry_loop_two_failures [of llm ?p tr] f0 f1 by blast
  obtain e3 where s3:
    "retry_loop llm ?p 2 e2 (tr @ [Llm_call 0, Sleep 1, Llm_call 1, Sleep 2]) =
      (None, e3, (tr @ [Llm_call 0, Sleep 1, Llm_call 1, Sleep 2]) @ [Llm_call 2])"
  proof -
    have "\<exists>err. retry_loop llm ?p 2 e2 (tr @ [Llm_call 0, Sleep 1, Llm_call 1, Sleep 2]) =
        (None, err, (tr @ [Llm_call 0, Sleep 1, Llm_call 1, Sleep 2]) @ [Llm_call 2])"
      using retry_loop_fail_last
        [of 2 llm ?p e2 "tr @ [Llm_call 0, Sleep 1, Llm_call 1, Sleep 2]"] f2
      by (simp add: max_retries_def)
    then show ?thesis using that by blast
  qed
  from s12 s3 False show ?thesis
    by (simp add: generate_podcast_script_def try_except_def)
qed

theorem generate_all_fail_witness:
  "fst (generate_podcast_script
     (\<lambda>a p. if a = 1 then Inr \<lparr>resp_text = None, resp_parts = None,
                                 resp_candidates = Some [Candidate None]\<rparr>
             else Inl (Exception ''quota exceeded''))
     ''paper'' []) = Inr None"
  by (rule generate_all_fail) (simp add: attempt_fails_def handle_response_def)

subsection \<open>The total backoff\<close>

lemma retry_loop_sleeps:
  "sum_list (sleeps (snd (snd (retry_loop llm p a le tr)))) \<le>
     sum_list (sleeps tr) + (\<Sum>k = a..<max_retries - 1. 2 ^ k)"
proof (induction llm p a le tr rule: retry_loop.induct)
  case (1 llm prompt attempt last_error tr)
  show ?case
  proof (cases "attempt < max_retries")
    case False
    then show ?thesis by (simp add: retry_loop_end)
  next
    case True
    note lt = True
    show ?thesis
    proof (cases "attempt < max_retries - 1")
      case True
      have split: "(\<Sum>k = attempt..<max_retries - 1. (2::nat) ^ k) =
          2 ^ attempt + (\<Sum>k = Suc attempt..<max_retries - 1. 2 ^ k)"
        using True by (simp add: sum.atLeast_Suc_lessThan)
      show ?thesis
      proof (cases "llm attempt prompt")
        case (Inl e)
        with 1 lt True split show ?thesis
          by (subst retry_loop.simps) (simp add: sleeps_append)
      next
        case (Inr r)
        show ?thesis
        proof (cases "handle_response r")
          case None
          with 1 lt Inr True split show ?thesis
            by (subst retry_loop.simps) (simp add: sleeps_append)
        next
          case (Some s)
          with Inr lt show ?thesis
            by (simp add: retry_loop_success sleeps_append)
        qed
      qed
    next
      case False
      with lt have last: "attempt = max_retries - 1" by simp
      show ?thesis
      proof (cases "llm attempt prompt")
        case (Inl e)
        with lt last show ?thesis
          by (subst retry_loop.simps) (simp add: sleeps_append)
      next
        case (Inr r)
        show ?thesis
        proof (cases "handle_response r")
          case None
          have "max_retries \<le> attempt + 1" using last by simp
          with None Inr lt False show ?thesis
            by (subst retry_loop.simps) (simp add: retry_loop_end sleeps_append)
        next
          case (Some s)
          with Inr lt show ?thesis
            by (simp add: retry_loop_success sleeps_append)
        qed
      qed
    qed
  qed
qed

lemma generate_sleeps_bound:
  "sum_list (sleeps (snd (generate_podcast_script llm txt []))) \<le> 3"
proof -
  have "(\<Sum>k = 0..<max_retries - 1. (2::nat) ^ k) = 3"
    by (simp add: max_retries_def numeral_2_eq_2)
  with retry_loop_sleeps [of llm "prompt_parts txt" 0 None "[]"]
  have "sum_list (sleeps (snd (snd (retry_loop llm (prompt_parts txt) 0 None [])))) \<le> 3"
    by simp
  then show ?thesis
    by (cases "retry_loop llm (prompt_parts txt) 0 None []")
      (simp add: generate_podcast_script_def)
qed

lemma generate_all_fail_trace:
  assumes "strip txt \<noteq> []"
    and "attempt_fails (llm 0 (prompt_parts txt))"
    and "attempt_fails (llm 1 (prompt_parts txt))"
    and "attempt_fails (llm 2 (prompt_parts txt))"
  shows "snd (generate_podcast_script llm txt tr) =
           tr @ [Llm_call 0, Sleep 1, Llm_call 1, Sleep 2, Llm_call 2]"
proof -
  let ?p = "prompt_parts txt"
  let ?t = "tr @ [Llm_call 0, Sleep 1, Llm_call 1, Sleep 2]"
  obtain e2 where s12: "retry_loop llm ?p 0 None tr = retry_loop llm ?p 2 e2 ?t"
    using retry_loop_two_failures [of llm ?p tr] assms(2,3) by blast
  have "\<exists>err. retry_loop llm ?p 2 e2 ?t = (None, err, ?t @ [Llm_call 2])"
    using retry_loop_fail_last [of 2 llm ?p e2 ?t] assms(4)
    by (simp add: max_retries_def)
  then obtain e3 where s3: "retry_loop llm ?p 2 e2 ?t = (None, e3, ?t @ [Llm_call 2])"
    by blast
  from s12 s3 assms(1) strip_nonempty [OF assms(1)] show ?thesis
    by (simp add: generate_podcast_script_def)
qed

text \<open>
  The backoff of one call of the script generator never adds up to 7 seconds: the
  third attempt is not followed by a sleep (lines 200 and 214).
\<close>

theorem backoff_total_not_seven:
  "\<not> (\<exists>llm txt. sum_list (sleeps (snd (generate_podcast_script llm txt []))) = 7)"
proof
  assume "\<exists>llm txt. sum_list (sleeps (snd (generate_podcast_script llm txt []))) = 7"
  then obtain l t where "sum_list (sleeps (snd (generate_podcast_script l t []))) = 7"
    by blast
  with generate_sleeps_bound [of l t] show False by simp
qed

text \<open>
  C8 (amended). Across one call of the script generator with its 3 attempts the time
  spent sleeping in backoff is at most 1 + 2 = 3 seconds, and for some execution (every
  attempt fails) the backoff sleep durations add up to exactly 3 seconds.
\<close>

theorem backoff_total_three:
  "(\<forall>llm txt. sum_list (sleeps (snd (generate_podcast_script llm txt []))) \<le> 3) \<and>
   (\<exists>llm txt. sum_list (sleeps (snd (generate_podcast_script llm txt []))) = 3)"
proof
  show "\<forall>llm txt. sum_list (sleeps (snd (generate_podcast_script llm txt []))) \<le> 3"
    using generate_sleeps_bound by blast
next
  let ?llm = "\<lambda>a p. Inl (Exception ''quota exceeded'') :: exn + response"
  have "snd (generate_podcast_script ?llm ''paper'' []) =
      [] @ [Llm_call 0, Sleep 1, Llm_call 1, Sleep 2, Llm_call 2]"
    by (rule generate_all_fail_trace) (simp_all add: strip_paper attempt_fails_def)
  then have "sum_list (sleeps (snd (generate_podcast_script ?llm ''paper'' []))) = 3"
    by simp
  then show "\<exists>llm txt. sum_list (sleeps (snd (generate_podcast_script llm txt []))) = 3"
    by blast
qed

section \<open>Text extraction: proofs\<close>

lemma read_pages_texts: "read_pages (map Inr texts) acc = Inr (acc @ concat texts)"
  by (induction texts arbitrary: acc) simp_all

lemma read_pages_raises:
  "Inl e \<in> set pages \<Longrightarrow> \<exists>e'. read_pages pages acc = Inl e'"
proof (induction pages arbitrary: acc)
  case Nil
  then show ?case by simp
next
  case (Cons pg pgs)
  then show ?case by (cases pg) auto
qed

text \<open>
  C4. For every path \<open>p\<close>: if \<open>p\<close> names an existing readable PDF file with a \<open>.pdf\<close>
  extension (in any letter case, as the code lower-cases the path) and extractable text,
  \<open>extract_text_from_pdf\<close> returns a non-empty string equal to the concatenation of the
  texts of the pages in page order; if the file is missing, lacks the extension or is
  unreadable (opening it or reading a page raises), it returns \<open>None\<close>.
\<close>

theorem extract_text_from_pdf_correct:
  "(fs p = Some (Inr (map Inr texts)) \<and> endswith (lower p) ''.pdf'' \<and> concat texts \<noteq> [] \<longrightarrow>
      (\<exists>t. extract_text_from_pdf fs p = Some t \<and> t \<noteq> [] \<and> t = concat texts)) \<and>
   (fs p = None \<or> \<not> endswith (lower p) ''.pdf'' \<or> (\<exists>e. fs p = Some (Inl e)) \<or>
    (\<exists>pages e. fs p = Some (Inr pages) \<and> Inl e \<in> set pages) \<longrightarrow>
      extract_text_from_pdf fs p = None)"
proof (intro conjI impI)
  assume "fs p = Some (Inr (map Inr texts)) \<and> endswith (lower p) ''.pdf'' \<and> concat texts \<noteq> []"
  then show "\<exists>t. extract_text_from_pdf fs p = Some t \<and> t \<noteq> [] \<and> t = concat texts"
    by (simp add: extract_text_from_pdf_def read_pages_texts)
next
  assume bad: "fs p = None \<or> \<not> endswith (lower p) ''.pdf'' \<or> (\<exists>e. fs p = Some (Inl e)) \<or>
    (\<exists>pages e. fs p = Some (Inr pages) \<and> Inl e \<in> set pages)"
  show "extract_text_from_pdf fs p = None"
  proof (cases "fs p")
    case None
    then show ?thesis by (simp add: extract_text_from_pdf_def)
  next
    case (Some doc)
    show ?thesis
    proof (cases "endswith (lower p) ''.pdf''")
      case False
      with Some show ?thesis by (simp add: extract_text_from_pdf_def)
    next
      case True
      show ?thesis
      proof (cases doc)
        case (Inl e)
        with Some show ?thesis by (simp add: extract_text_from_pdf_def)
      next
        case (Inr pages)
        with bad Some True obtain e where "Inl e \<in> set pages" by auto
        then obtain e' where "read_pages pages [] = Inl e'"
          using read_pages_raises by blast
        with Some Inr show ?thesis by (simp add: extract_text_from_pdf_def)
      qed
    qed
  qed
qed

lemma lower_paper: "lower ''paper.PDF'' = ''paper.pdf''"
  by code_simp

lemma lower_notes: "lower ''notes.txt'' = ''notes.txt''"
  by (simp add: lower_def lower_char_def)

theorem extract_text_from_pdf_correct_witness:
  "extract_text_from_pdf (env_files sample_env) ''paper.PDF'' =
     Some ''Hello World research findings'' \<and>
   extract_text_from_pdf (env_files sample_env) ''missing.pdf'' = None \<and>
   extract_text_from_pdf (env_files sample_env) ''notes.txt'' = None \<and>
   extract_text_from_pdf (env_files sample_env) ''broken.pdf'' = None"
proof -
  let ?fs = "env_files sample_env"
  have a: "?fs ''paper.PDF'' = Some (Inr (map Inr [''Hello World '', ''research findings''])) \<and>
      endswith (lower ''paper.PDF'') ''.pdf'' \<and>
      concat [''Hello World '', ''research findings''] \<noteq> []"
    by (simp add: sample_env_def lower_paper endswith_def)
  have b: "?fs ''missing.pdf'' = None"
    by (simp add: sample_env_def)
  have c: "\<not> endswith (lower ''notes.txt'') ''.pdf''"
    by (simp add: lower_notes endswith_def)
  have d: "\<exists>e. ?fs ''broken.pdf'' = Some (Inl e)"
    by (simp add: sample_env_def)
  from extract_text_from_pdf_correct
    [of ?fs "''paper.PDF''" "[''Hello World '', ''research findings'']"] a
  have 1: "extract_text_from_pdf ?fs ''paper.PDF'' = Some ''Hello World research findings''"
    by simp
  from extract_text_from_pdf_correct [of ?fs "''missing.pdf''"] b
  have 2: "extract_text_from_pdf ?fs ''missing.pdf'' = None" by blast
  from extract_text_from_pdf_correct [of ?fs "''notes.txt''"] c
  have 3: "extract_text_from_pdf ?fs ''notes.txt'' = None" by blast
  from extract_text_from_pdf_correct [of ?fs "''broken.pdf''"] d
  have 4: "extract_text_from_pdf ?fs ''broken.pdf'' = None" by blast
  from 1 2 3 4 show ?thesis by blast
qed

subsection \<open>A PDF behind a URL\<close>

lemma lower_pdf_suffix: "lower ''.pdf'' = ''.pdf''"
  by code_simp

lemma tempfile_name_is_pdf: "endswith (lower (stem @ ''.pdf'')) ''.pdf''"
proof -
  have "lower (stem @ ''.pdf'') = lower stem @ ''.pdf''"
    using lower_pdf_suffix by (simp add: lower_def)
  then show ?thesis by (simp add: endswith_def)
qed

text \<open>
  A PDF that fits the buffer of the temporary file has not reached the file when it is
  read (lines 125-127), so nothing is extracted from it.
\<close>

lemma small_pdf_by_url:
  assumes "env_http_get env url = Inr response"
    and "contains (web_content_type response) ''application/pdf''"
    and "length (web_content response) \<le> env_buffer_size env"
  shows "extract_text_from_url env url = None"
proof (cases "env_tempfile env")
  case (Inl e)
  with assms(1,2) show ?thesis by (simp add: extract_text_from_url_def)
next
  case (Inr stem)
  with assms show ?thesis
    by (simp add: extract_text_from_url_def extract_text_from_pdf_def written_before_flush_def
        fitz_open_def)
qed

text \<open>A larger PDF is read as PyMuPDF finds it, its pages in order.\<close>

lemma large_pdf_by_url:
  assumes "env_http_get env url = Inr response"
    and "contains (web_content_type response) ''application/pdf''"
    and "env_buffer_size env < length (web_content response)"
    and "env_tempfile env = Inr stem"
    and "env_fitz env (web_content response) = Inr (map Inr texts)"
  shows "extract_text_from_url env url = Some (concat texts)"
proof -
  from assms(3) have "web_content response \<noteq> []" by auto
  with assms show ?thesis
    by (simp add: extract_text_from_url_def extract_text_from_pdf_def written_before_flush_def
        fitz_open_def tempfile_name_is_pdf read_pages_texts)
qed

section \<open>The request handler: proofs\<close>

text \<open>
  C5. For every multipart upload whose file has a non-empty file name that, lower-cased
  as the code does, does not end in \<open>.pdf\<close>, the endpoint returns HTTP 400 with the
  error message "Invalid file type. Please upload a PDF.", and neither text extraction
  nor any later stage of the pipeline is invoked: no event happens.
\<close>

theorem invalid_file_type:
  assumes "req_file req = Some file"
    and "up_filename file \<noteq> []"
    and "\<not> endswith (lower (up_filename file)) ''.pdf''"
  shows "generate_podcast env req =
           (error_response 400 ''Invalid file type. Please upload a PDF.'', [])"
  using assms
  by (simp add: generate_podcast_def generate_podcast_body_def receive_source_def)

theorem invalid_file_type_witness:
  "generate_podcast sample_env (upload_request ''notes.txt'') =
     (\<lparr>http_status = 400,
       http_body = [(''error'', JString ''Invalid file type. Please upload a PDF.'')]\<rparr>, [])"
proof -
  let ?file = "\<lparr>up_filename = ''notes.txt'', up_body = Inr [Inr ''Some text'']\<rparr>"
  have a: "req_file (upload_request ''notes.txt'') = Some ?file"
    by (simp add: upload_request_def)
  have b: "up_filename ?file \<noteq> []" by simp
  have c: "\<not> endswith (lower (up_filename ?file)) ''.pdf''"
    by (simp add: lower_notes endswith_def)
  from invalid_file_type [OF a b c, of sample_env] show ?thesis
    by (simp add: error_response_def)
qed

lemma strip_spaces:
  assumes "\<forall>c\<in>set t. isspace c"
  shows "strip t = []"
  using assms by (auto simp: strip_def dest: set_dropWhileD)

text \<open>
  C9. For every request whose extracted text is non-empty but consists only of
  whitespace characters, the check of the handler for an empty text passes (no HTTP
  400), the script generator returns \<open>None\<close> because the stripped text is empty, without
  calling the generative model, and the endpoint returns HTTP 500 "Failed to generate
  podcast script".
\<close>

theorem whitespace_text_fails:
  assumes "receive_source env req = (Next (Some t), tr)"
    and "t \<noteq> []"
    and "\<forall>c\<in>set t. isspace c"
  shows "generate_podcast_script (env_llm env) t tr = (Inr None, tr) \<and>
         generate_podcast env req =
           (error_response 500 ''Failed to generate podcast script'', tr)"
proof -
  have gen: "generate_podcast_script (env_llm env) t tr = (Inr None, tr)"
    using strip_spaces [OF assms(3)] by (simp add: generate_podcast_script_def)
  with assms(1,2) show ?thesis
    by (simp add: generate_podcast_def generate_podcast_body_def script_stage_def)
qed

theorem whitespace_text_fails_witness:
  "generate_podcast sample_env (url_request ''http://example.org/blank'') =
     (\<lparr>http_status = 500,
       http_body = [(''error'', JString ''Failed to generate podcast script'')]\<rparr>,
      [Extract_url ''http://example.org/blank''])"
proof -
  let ?t = "''  \<newline> ''"
  have a: "receive_source sample_env (url_request ''http://example.org/blank'') =
      (Next (Some ?t), [Extract_url ''http://example.org/blank''])"
    by (simp add: receive_source_def url_request_def extract_text_from_url_def sample_env_def)
  have b: "?t \<noteq> []" by simp
  have c: "\<forall>c\<in>set ?t. isspace c" by (simp add: isspace_def)
  from whitespace_text_fails [OF a b c] show ?thesis
    by (simp add: error_response_def)
qed

text \<open>
  C10. For every POST /generate request that has no part \<open>file\<close> among its files and
  is not a JSON request, the handler leaves the extracted text \<open>None\<close> and returns HTTP
  400 with the message "Could not extract text from the source.", without invoking
  extraction, the generative model or speech synthesis: no event happens.
\<close>

theorem no_source_given:
  assumes "req_file req = None" and "\<not> req_is_json req"
  shows "receive_source env req = (Next None, []) \<and>
         generate_podcast env req =
           (error_response 400 ''Could not extract text from the source.'', [])"
  using assms
  by (simp add: generate_podcast_def generate_podcast_body_def receive_source_def
      script_stage_def)

theorem no_source_given_witness:
  "generate_podcast sample_env
     \<lparr>req_file = None, req_is_json = False, req_source = Inl (Exception ''not json'')\<rparr> =
     (\<lparr>http_status = 400,
       http_body = [(''error'', JString ''Could not extract text from the source.'')]\<rparr>, [])"
proof -
  let ?req = "\<lparr>req_file = None, req_is_json = False,
                req_source = Inl (Exception ''not json'')\<rparr>"
  have a: "req_file ?req = None" by simp
  have b: "\<not> req_is_json ?req" by simp
  from no_source_given [OF a b, of sample_env] show ?thesis
    by (simp add: error_response_def)
qed


subsection \<open>Speech synthesis\<close>

lemma split_chunks_short:
  assumes "s \<noteq> []" and "length s \<le> max_chunk_length"
  shows "split_chunks s = [s]"
proof -
  have "chunk_starts (0 + max_chunk_length) (length s) = []"
    using assms(2) by (subst chunk_starts.simps) simp
  then have "chunk_starts 0 (length s) = [0]"
    using assms(1) by (subst chunk_starts.simps) simp
  with assms(2) show ?thesis by (simp add: split_chunks_def)
qed

text \<open>The two ways out of speech synthesis when no audio was obtained.\<close>

lemma speech_stage_no_audio:
  assumes "tts_loop env 0 (split_chunks s) [] None tr = (None, [], u, tr1)"
  shows "speech_stage env s tr =
           (warning_response s
              (''Failed to generate audio. The text might be too long or contain '' @
               ''unsupported characters.''), tr1)"
  using assms by (simp add: speech_stage_def)

lemma speech_stage_raised:
  assumes "tts_loop env 0 (split_chunks s) [] None tr = (Some e, d, u, tr1)"
  shows "speech_stage env s tr = (success_response s u, tr1)"
  using assms by (simp add: speech_stage_def)

lemma strip_a_paper: "strip ''A paper.'' = ''A paper.''"
  by (simp add: strip_def isspace_def)

lemma sample_script:
  assumes "env_llm env = (\<lambda>attempt prompt. Inr sample_response)"
  shows "generate_podcast_script (env_llm env) ''A paper.'' tr =
           (Inr (Some ''Welcome to the show.''), tr @ [Llm_call 0])"
proof -
  have "retry_loop (env_llm env) (prompt_parts ''A paper.'') 0 None tr =
      (Some ''Welcome to the show.'', None, tr @ [Llm_call 0])"
    by (rule retry_loop_success [where r = sample_response])
      (simp_all add: assms max_retries_def handle_response_def sample_response_def)
  then show ?thesis
    by (simp add: generate_podcast_script_def strip_a_paper try_except_def)
qed

lemma sample_chunks: "split_chunks ''Welcome to the show.'' = [''Welcome to the show.'']"
  by (rule split_chunks_short) (simp_all add: max_chunk_length_def)

lemma sample_receive:
  assumes "env_http_get env = env_http_get sample_env"
  shows "receive_source env (url_request ''http://example.org/paper'') =
           (Next (Some ''A paper.''), [Extract_url ''http://example.org/paper''])"
  by (simp add: receive_source_def url_request_def extract_text_from_url_def assms
      sample_env_def)

lemma sample_until_speech:
  assumes "env_http_get env = env_http_get sample_env"
    and "env_llm env = (\<lambda>attempt prompt. Inr sample_response)"
    and "env_io_error env = (\<lambda>ev. None)"
    and "env_murf_client env = Some key"
    and "env_uuid4 env (Suc 0) = ''9f2c41d0''"
  shows "generate_podcast env (url_request ''http://example.org/paper'') =
           speech_stage env ''Welcome to the show.''
             [Extract_url ''http://example.org/paper'', Llm_call 0,
              Write_script ''uploads/9f2c41d0.txt'']"
proof -
  have "script_stage env (Some ''A paper.'') [Extract_url ''http://example.org/paper''] =
      (case speech_stage env ''Welcome to the show.''
             [Extract_url ''http://example.org/paper'', Llm_call 0,
              Write_script ''uploads/9f2c41d0.txt''] of (r, tr2) \<Rightarrow> (Inr r, tr2))"
    by (simp add: script_stage_def sample_script [OF assms(2)] assms(3,4,5) path_join_def
        upload_folder_def)
  then show ?thesis
    by (simp add: generate_podcast_def generate_podcast_body_def sample_receive [OF assms(1)]
        split: prod.splits)
qed

text \<open>
  C3. A request that reaches speech synthesis and obtains no audio bytes for any chunk
  should be answered with HTTP 200, status \<open>success\<close>, the full script, \<open>audio_url\<close> null
  and a \<open>warning\<close> field. The code evaluated on three such requests: with the speech
  service raising on the first chunk the reply is HTTP 200 with the script and
  \<open>audio_url\<close> null but has no \<open>warning\<close> field; with the download of the first chunk
  raising the reply has no \<open>warning\<close> field either and its \<open>audio_url\<close> is the remote
  URL given by the speech service, not null; only with the speech service giving no
  audio file and nothing thrown does the reply carry \<open>audio_url\<close> null and the warning.
\<close>

theorem speech_exception_reply:
  "generate_podcast sample_env (url_request ''http://example.org/paper'') =
     (\<lparr>http_status = 200,
       http_body = [(''status'', JString ''success''),
                    (''script'', JString ''Welcome to the show.''),
                    (''audio_url'', JNull)]\<rparr>,
      [Extract_url ''http://example.org/paper'', Llm_call 0,
       Write_script ''uploads/9f2c41d0.txt'', Tts_call 0 ''Welcome to the show.'']) \<and>
   field (fst (generate_podcast sample_env (url_request ''http://example.org/paper'')))
     ''warning'' = None \<and>
   generate_podcast
     (sample_env\<lparr>env_tts := \<lambda>i chunk. Inr (Tts_result (Some ''https://murf.example/a.mp3''))\<rparr>)
     (url_request ''http://example.org/paper'') =
     (\<lparr>http_status = 200,
       http_body = [(''status'', JString ''success''),
                    (''script'', JString ''Welcome to the show.''),
                    (''audio_url'', JString ''https://murf.example/a.mp3'')]\<rparr>,
      [Extract_url ''http://example.org/paper'', Llm_call 0,
       Write_script ''uploads/9f2c41d0.txt'', Tts_call 0 ''Welcome to the show.'',
       Download 0 ''https://murf.example/a.mp3'']) \<and>
   generate_podcast (sample_env\<lparr>env_tts := \<lambda>i chunk. Inr Tts_none\<rparr>)
     (url_request ''http://example.org/paper'') =
     (\<lparr>http_status = 200,
       http_body = [(''status'', JString ''success''),
                    (''script'', JString ''Welcome to the show.''),
                    (''audio_url'', JNull),
                    (''warning'', JString (''Failed to generate audio. The text might be too long or contain '' @
                       ''unsupported characters.''))]\<rparr>,
      [Extract_url ''http://example.org/paper'', Llm_call 0,
       Write_script ''uploads/9f2c41d0.txt'', Tts_call 0 ''Welcome to the show.''])"
proof -
  let ?req = "url_request ''http://example.org/paper''"
  let ?tr = "[Extract_url ''http://example.org/paper'', Llm_call 0,
       Write_script ''uploads/9f2c41d0.txt'']"
  let ?s = "''Welcome to the show.''"
  let ?env2 = "sample_env\<lparr>env_tts := \<lambda>i chunk. Inr (Tts_result (Some ''https://murf.example/a.mp3''))\<rparr>"
  let ?env3 = "sample_env\<lparr>env_tts := \<lambda>i chunk. Inr Tts_none\<rparr>"
  have g1: "generate_podcast sample_env ?req = speech_stage sample_env ?s ?tr"
    by (rule sample_until_speech [where key = "''key''"]) (simp_all add: sample_env_def)
  have g2: "generate_podcast ?env2 ?req = speech_stage ?env2 ?s ?tr"
    by (rule sample_until_speech [where key = "''key''"]) (simp_all add: sample_env_def)
  have g3: "generate_podcast ?env3 ?req = speech_stage ?env3 ?s ?tr"
    by (rule sample_until_speech [where key = "''key''"]) (simp_all add: sample_env_def)
  have l1: "tts_loop sample_env 0 (split_chunks ?s) [] None ?tr =
      (Some (Exception ''speech service unreachable''), [], None, ?tr @ [Tts_call 0 ?s])"
    by (simp add: sample_chunks sample_env_def)
  have l2: "tts_loop ?env2 0 (split_chunks ?s) [] None ?tr =
      (Some (Exception ''connection reset''), [], Some ''https://murf.example/a.mp3'',
       ?tr @ [Tts_call 0 ?s, Download 0 ''https://murf.example/a.mp3''])"
    by (simp add: sample_chunks sample_env_def usable_audio_file_def)
  have l3: "tts_loop ?env3 0 (split_chunks ?s) [] None ?tr =
      (None, [], None, ?tr @ [Tts_call 0 ?s])"
    by (simp add: sample_chunks sample_env_def usable_audio_file_def)
  have r1: "generate_podcast sample_env ?req = (success_response ?s None, ?tr @ [Tts_call 0 ?s])"
    using g1 speech_stage_raised [OF l1] by simp
  have r2: "generate_podcast ?env2 ?req =
      (success_response ?s (Some ''https://murf.example/a.mp3''),
       ?tr @ [Tts_call 0 ?s, Download 0 ''https://murf.example/a.mp3''])"
    using g2 speech_stage_raised [OF l2] by simp
  have r3: "generate_podcast ?env3 ?req =
      (warning_response ?s
         (''Failed to generate audio. The text might be too long or contain '' @
          ''unsupported characters.''), ?tr @ [Tts_call 0 ?s])"
    using g3 speech_stage_no_audio [OF l3] by simp
  show ?thesis
    by (simp add: r1 r2 r3 success_response_def warning_response_def json_of_url_def
        field_def)
qed

end
